theory Spec2Isabelle
  imports Complex_Main "HOL-Library.Word"
begin

section \<open>JavaScript strings\<close>

text \<open>
  A JavaScript string is a sequence of UTF-16 code units. The literals of
  \<^verbatim>\<open>main.js\<close> are ASCII, so each is written as an Isabelle string and
  converted code unit by code unit.
\<close>

type_synonym jschar = "16 word"
type_synonym jsstring = "jschar list"

definition lit :: "string \<Rightarrow> jsstring" where
  "lit s = map of_char s"

text \<open>
  \<^verbatim>\<open>String.prototype.trim\<close> removes leading and trailing code points that are
  WhiteSpace or LineTerminator: TAB, LF, VT, FF, CR, SP, NBSP, the Unicode space
  separators (U+1680, U+2000 to U+200A, U+202F, U+205F, U+3000), LS, PS and
  ZWNBSP. All of them are single code units.
\<close>

definition is_white_space :: "jschar \<Rightarrow> bool" where
  "is_white_space c \<longleftrightarrow>
     c \<in> {0x0009, 0x000A, 0x000B, 0x000C, 0x000D, 0x0020, 0x00A0, 0x1680,
          0x2000, 0x2001, 0x2002, 0x2003, 0x2004, 0x2005, 0x2006, 0x2007,
          0x2008, 0x2009, 0x200A, 0x2028, 0x2029, 0x202F, 0x205F, 0x3000, 0xFEFF}"

definition trim :: "jsstring \<Rightarrow> jsstring" where
  "trim s = rev (dropWhile is_white_space (rev (dropWhile is_white_space s)))"

section \<open>JavaScript numbers\<close>

text \<open>
  A Number is an IEEE 754 binary64 value. A finite one is represented by its
  exact rational value (the \<open>\<real>(x)\<close> of the language specification); the two
  zeros are identified, which no operation used by \<^verbatim>\<open>main.js\<close> can observe
  (\<^verbatim>\<open>toFixed\<close> prints both as zero, and a product with 100 never underflows).
  \<open>to_double\<close> is the \<open>\<bbbF>(q)\<close> of the specification: the binary64 value
  nearest to the rational \<open>q\<close>, ties to the even significand, with gradual
  underflow below \<open>2\<^sup>-\<^sup>1\<^sup>0\<^sup>2\<^sup>2\<close> and overflow to infinity from \<open>2\<^sup>1\<^sup>0\<^sup>2\<^sup>4\<close> on.
\<close>

datatype number = NaN | PosInfinity | NegInfinity | Finite rat

definition powr_int :: "int \<Rightarrow> int \<Rightarrow> rat" where
  "powr_int b e = (if 0 \<le> e then of_int b ^ nat e else 1 / of_int b ^ nat (- e))"

function count_digits :: "int \<Rightarrow> int \<Rightarrow> int" where
  "count_digits b n = (if 0 < n \<and> 1 < b then 1 + count_digits b (n div b) else 0)"
  by pat_completeness auto
termination
  by (relation "measure (\<lambda>(b, n). nat n)") (auto simp: int_div_less_self)

text \<open>
  \<open>ilog b a\<close> is the integer \<open>e\<close> with \<open>b\<^sup>e \<le> a < b\<^sup>e\<^sup>+\<^sup>1\<close>, for \<open>a > 0\<close>: one less
  than the number of digits of the integer part when \<open>a \<ge> 1\<close>, and found from
  the reciprocal otherwise.
\<close>

definition ilog :: "int \<Rightarrow> rat \<Rightarrow> int" where
  "ilog b a = (if 1 \<le> a then count_digits b \<lfloor>a\<rfloor> - 1
               else - count_digits b (\<lceil>1 / a\<rceil> - 1))"

definition round_ties_even :: "rat \<Rightarrow> int" where
  "round_ties_even r = (let f = \<lfloor>r\<rfloor>; d = r - of_int f
     in if d < 1 / 2 then f else if 1 / 2 < d then f + 1 else if even f then f else f + 1)"

definition to_double :: "rat \<Rightarrow> number" where
  "to_double q = (if q = 0 then Finite 0 else
     let a = \<bar>q\<bar>; e = max (ilog 2 a) (- 1022); u = powr_int 2 (e - 52);
         r = of_int (round_ties_even (a / u)) * u
     in if powr_int 2 1024 \<le> r then (if q < 0 then NegInfinity else PosInfinity)
        else Finite (if q < 0 then - r else r))"

text \<open>The \<^verbatim>\<open>*\<close> operator on two Numbers (Number::multiply).\<close>

fun multiply :: "number \<Rightarrow> number \<Rightarrow> number" where
  "multiply NaN y = NaN"
| "multiply x NaN = NaN"
| "multiply (Finite a) (Finite b) = to_double (a * b)"
| "multiply (Finite a) PosInfinity = (if a = 0 then NaN else if 0 < a then PosInfinity else NegInfinity)"
| "multiply (Finite a) NegInfinity = (if a = 0 then NaN else if 0 < a then NegInfinity else PosInfinity)"
| "multiply PosInfinity (Finite b) = (if b = 0 then NaN else if 0 < b then PosInfinity else NegInfinity)"
| "multiply NegInfinity (Finite b) = (if b = 0 then NaN else if 0 < b then NegInfinity else PosInfinity)"
| "multiply PosInfinity PosInfinity = PosInfinity"
| "multiply PosInfinity NegInfinity = NegInfinity"
| "multiply NegInfinity PosInfinity = NegInfinity"
| "multiply NegInfinity NegInfinity = PosInfinity"

text \<open>The decimal digits of a non-negative integer, without leading zeros.\<close>

function digits :: "int \<Rightarrow> jsstring" where
  "digits n = (if n < 10 then [48 + of_int n] else digits (n div 10) @ [48 + of_int (n mod 10)])"
  by pat_completeness auto
termination
  by (relation "measure nat") (auto simp: int_div_less_self)

text \<open>
  Number::toString in radix 10 looks for the shortest decimal \<open>s \<times> 10\<^sup>n\<^sup>-\<^sup>k\<close>
  (\<open>k\<close> digits) that \<open>\<bbbF>\<close> maps back to the value, and among those the one
  nearest to it. The nearest candidates with \<open>k\<close> digits are the two multiples
  of \<open>10\<^sup>n\<^sup>-\<^sup>k\<close> around the value; 17 digits always suffice for binary64.
\<close>

definition nearest :: "rat \<Rightarrow> int \<Rightarrow> int \<Rightarrow> int" where
  "nearest a n0 k =
     (let scale = powr_int 10 (n0 - k); lo = \<lfloor>a / scale\<rfloor>; hi = lo + 1;
          dlo = a - of_int lo * scale; dhi = of_int hi * scale - a
      in if dlo < dhi then lo else if dhi < dlo then hi else if even lo then lo else hi)"

definition candidate :: "rat \<Rightarrow> int \<Rightarrow> int \<Rightarrow> int option" where
  "candidate a n0 k =
     (let scale = powr_int 10 (n0 - k); lo = \<lfloor>a / scale\<rfloor>; hi = lo + 1;
          oklo = (to_double (of_int lo * scale) = to_double a);
          okhi = (to_double (of_int hi * scale) = to_double a)
      in if oklo \<and> okhi then Some (nearest a n0 k)
         else if oklo then Some lo else if okhi then Some hi else None)"

fun shortest :: "rat \<Rightarrow> int \<Rightarrow> nat \<Rightarrow> int \<Rightarrow> int \<times> int" where
  "shortest a n0 0 k = (nearest a n0 k, k)"
| "shortest a n0 (Suc fuel) k =
     (case candidate a n0 k of Some s \<Rightarrow> (s, k) | None \<Rightarrow> shortest a n0 fuel (k + 1))"

definition Number_toString_pos :: "rat \<Rightarrow> jsstring" where
  "Number_toString_pos a =
     (let n0 = ilog 10 a + 1; (s0, k0) = shortest a n0 16 1;
          (s, k, n) = (if s0 = 10 ^ nat k0 then (1, 1, n0 + 1) else (s0, k0, n0));
          ds = digits s
      in if - 5 \<le> n \<and> n \<le> 21 then
           (if k \<le> n then ds @ replicate (nat (n - k)) 48
            else if 0 < n then take (nat n) ds @ lit ''.'' @ drop (nat n) ds
            else lit ''0.'' @ replicate (nat (- n)) 48 @ ds)
         else
           (let es = (if n < 0 then lit ''-'' else lit ''+''); ex = digits \<bar>n - 1\<bar>
            in if k = 1 then ds @ lit ''e'' @ es @ ex
               else take 1 ds @ lit ''.'' @ drop 1 ds @ lit ''e'' @ es @ ex))"

definition Number_toString :: "number \<Rightarrow> jsstring" where
  "Number_toString x = (case x of
       NaN \<Rightarrow> lit ''NaN''
     | PosInfinity \<Rightarrow> lit ''Infinity''
     | NegInfinity \<Rightarrow> lit ''-Infinity''
     | Finite q \<Rightarrow> if q = 0 then lit ''0''
                   else if q < 0 then lit ''-'' @ Number_toString_pos (- q)
                   else Number_toString_pos q)"

text \<open>
  \<^verbatim>\<open>Number.prototype.toFixed(f)\<close> for \<open>0 \<le> f \<le> 100\<close> (the program calls it with
  1): a value that is not finite, or whose magnitude is at least \<open>10\<^sup>2\<^sup>1\<close>, is
  printed by Number::toString; any other is rounded to the nearest multiple of
  \<open>10\<^sup>-\<^sup>f\<close>, the larger one on a tie, and printed with \<open>f\<close> fraction digits.
\<close>

definition toFixed :: "nat \<Rightarrow> number \<Rightarrow> jsstring" where
  "toFixed f x = (case x of
       Finite q \<Rightarrow>
         (let s = (if q < 0 then lit ''-'' else []); a = \<bar>q\<bar>;
              m = (if 10 ^ 21 \<le> a then Number_toString (Finite a)
                   else
                     (let n = \<lfloor>a * 10 ^ f + 1 / 2\<rfloor>; m0 = digits n in
                      if f \<noteq> 0 then
                        (let m1 = (if length m0 \<le> f then replicate (f + 1 - length m0) 48 @ m0 else m0);
                             k = length m1
                         in take (k - f) m1 @ lit ''.'' @ drop (k - f) m1)
                      else m0))
          in s @ m)
     | _ \<Rightarrow> Number_toString x)"

section \<open>The page and what the handlers can observe\<close>

text \<open>
  An element's content is recorded with the property it was assigned through:
  \<^verbatim>\<open>innerHTML\<close> hands the string to the HTML parser, \<^verbatim>\<open>textContent\<close> stores it as
  a single text node.
\<close>

datatype content = InnerHTML jsstring | TextContent jsstring

record element =
  localName :: jsstring
  className :: jsstring
  textContent :: jsstring

datatype js_error = Error jsstring

fun error_message :: "js_error \<Rightarrow> jsstring" where
  "error_message (Error m) = m"

text \<open>
  A request as \<^verbatim>\<open>fetch\<close> receives it (\<open>http_method\<close> is the option \<^verbatim>\<open>method\<close>).
  The body of the question request is \<^verbatim>\<open>JSON.stringify({ question: question })\<close>;
  it is kept as the question it is built from.
\<close>

datatype body = JSON_stringify_question jsstring

record request =
  url :: jsstring
  http_method :: jsstring
  headers :: "(jsstring \<times> jsstring) list"
  body :: "body option"

text \<open>
  The parsed response body, with the fields the handlers read: a boolean
  \<open>success\<close>, strings \<open>message\<close> and \<open>answer\<close> (a handler reads only the one its
  branch uses), and \<open>sources\<close>, which is \<open>None\<close> when the field is absent or
  null. The handlers check nothing else about the body; bodies whose fields
  have other types are outside this model.
\<close>

record source =
  filename :: jsstring
  score :: number

record response =
  success :: bool
  message :: jsstring
  answer :: jsstring
  sources :: "source list option"

text \<open>
  How the promise \<^verbatim>\<open>fetch(...).then(response => response.json())\<close> settles:
  with the parsed body, or rejected (network failure, body that is not JSON).
\<close>

datatype outcome = Resolved response | Rejected js_error

record event =
  defaultPrevented :: bool

record page =
  indexButton_disabled :: bool
  indexStatus :: content
  question_value :: jsstring
  loadingIndicator_classList :: "jsstring list"
  answerSection_classList :: "jsstring list"
  answerContent :: content
  sourcesList :: "element list"
  alerts :: "jsstring list"
  console :: "(jsstring \<times> js_error) list"
  fetched :: "request list"
  pending :: "request list"

definition classList_add :: "jsstring \<Rightarrow> jsstring list \<Rightarrow> jsstring list" where
  "classList_add t cs = (if t \<in> set cs then cs else cs @ [t])"

definition classList_remove :: "jsstring \<Rightarrow> jsstring list \<Rightarrow> jsstring list" where
  "classList_remove t cs = removeAll t cs"

definition alert :: "jsstring \<Rightarrow> page \<Rightarrow> page" where
  "alert m s = s\<lparr>alerts := alerts s @ [m]\<rparr>"

definition console_error :: "jsstring \<Rightarrow> js_error \<Rightarrow> page \<Rightarrow> page" where
  "console_error m e s = s\<lparr>console := console s @ [(m, e)]\<rparr>"

text \<open>\<^verbatim>\<open>fetch\<close> issues the request and leaves its promise pending.\<close>

definition fetch :: "request \<Rightarrow> page \<Rightarrow> page" where
  "fetch r s = s\<lparr>fetched := fetched s @ [r], pending := pending s @ [r]\<rparr>"

section \<open>The index trigger (lines 13 to 41)\<close>

definition index_request :: request where
  "index_request =
     \<lparr>url = lit ''/api/index-documents'', http_method = lit ''POST'',
      headers = [(lit ''Content-Type'', lit ''application/json'')], body = None\<rparr>"

definition indexButton_click :: "page \<Rightarrow> page" where
  \<open>indexButton_click s =
     (let s1 = s\<lparr>indexButton_disabled := True\<rparr>;
          s2 = s1\<lparr>indexStatus :=
                 InnerHTML (lit ''<div class="alert alert-info">Indexierung gestartet...</div>'')\<rparr>
      in fetch index_request s2)\<close>

definition indexButton_then :: "response \<Rightarrow> page \<Rightarrow> page" where
  \<open>indexButton_then data s =
     (if success data then
        s\<lparr>indexStatus :=
            InnerHTML (lit ''<div class="alert alert-success">'' @ message data @ lit ''</div>'')\<rparr>
      else
        s\<lparr>indexStatus :=
            InnerHTML (lit ''<div class="alert alert-danger">'' @ message data @ lit ''</div>'')\<rparr>)\<close>

definition indexButton_catch :: "js_error \<Rightarrow> page \<Rightarrow> page" where
  \<open>indexButton_catch error s =
     (let s1 = s\<lparr>indexStatus :=
                 InnerHTML (lit ''<div class="alert alert-danger">Fehler: '' @ error_message error
                            @ lit ''</div>'')\<rparr>
      in console_error (lit ''Fehler:'') error s1)\<close>

definition indexButton_finally :: "page \<Rightarrow> page" where
  "indexButton_finally s = s\<lparr>indexButton_disabled := False\<rparr>"

text \<open>
  The continuation of the promise chain: the \<^verbatim>\<open>then\<close> callback on the parsed
  body or the \<^verbatim>\<open>catch\<close> callback on a rejection, and the \<^verbatim>\<open>finally\<close> callback
  after either.
\<close>

definition indexButton_settle :: "outcome \<Rightarrow> page \<Rightarrow> page" where
  "indexButton_settle oc s =
     indexButton_finally
       (case oc of Resolved data \<Rightarrow> indexButton_then data s
                 | Rejected error \<Rightarrow> indexButton_catch error s)"

section \<open>The question form (lines 44 to 100)\<close>

definition ask_request :: "jsstring \<Rightarrow> request" where
  "ask_request question =
     \<lparr>url = lit ''/api/ask'', http_method = lit ''POST'',
      headers = [(lit ''Content-Type'', lit ''application/json'')],
      body = Some (JSON_stringify_question question)\<rparr>"

definition questionForm_submit :: "event \<Rightarrow> page \<Rightarrow> event \<times> page" where
  "questionForm_submit event s =
     (let event' = event\<lparr>defaultPrevented := True\<rparr>;
          question = trim (question_value s)
      in if question = [] then (event', alert (lit ''Bitte geben Sie eine Frage ein.'') s)
         else
           (let s1 = s\<lparr>loadingIndicator_classList :=
                        classList_remove (lit ''d-none'') (loadingIndicator_classList s)\<rparr>;
                s2 = s1\<lparr>answerSection_classList :=
                         classList_add (lit ''d-none'') (answerSection_classList s1)\<rparr>
            in (event', fetch (ask_request question) s2)))"

definition source_item :: "source \<Rightarrow> element" where
  "source_item source =
     \<lparr>localName = lit ''li'', className = lit ''list-group-item'',
      textContent = filename source @ lit '' (Relevanz: ''
                    @ toFixed 1 (multiply (score source) (Finite 100)) @ lit ''%)''\<rparr>"

definition placeholder_item :: element where
  "placeholder_item =
     \<lparr>localName = lit ''li'', className = lit ''list-group-item'',
      textContent = lit ''Keine spezifischen Quellen gefunden.''\<rparr>"

definition appendChild :: "element \<Rightarrow> page \<Rightarrow> page" where
  "appendChild li s = s\<lparr>sourcesList := sourcesList s @ [li]\<rparr>"

fun forEach_source :: "source list \<Rightarrow> page \<Rightarrow> page" where
  "forEach_source [] s = s"
| "forEach_source (source # rest) s = forEach_source rest (appendChild (source_item source) s)"

definition questionForm_then :: "response \<Rightarrow> page \<Rightarrow> page" where
  "questionForm_then data s =
     (if success data then
        (let s1 = s\<lparr>answerContent := TextContent (answer data)\<rparr>;
             s2 = s1\<lparr>sourcesList := []\<rparr>;
             s3 = (case sources data of
                     Some srcs \<Rightarrow>
                       if 0 < length srcs then forEach_source srcs s2
                       else appendChild placeholder_item s2
                   | None \<Rightarrow> appendChild placeholder_item s2)
         in s3\<lparr>answerSection_classList :=
                 classList_remove (lit ''d-none'') (answerSection_classList s3)\<rparr>)
      else alert (lit ''Fehler: '' @ message data) s)"

definition questionForm_catch :: "js_error \<Rightarrow> page \<Rightarrow> page" where
  "questionForm_catch error s =
     console_error (lit ''Fehler:'') error
       (alert (lit ''Fehler bei der Anfrage: '' @ error_message error) s)"

definition questionForm_finally :: "page \<Rightarrow> page" where
  "questionForm_finally s =
     s\<lparr>loadingIndicator_classList :=
         classList_add (lit ''d-none'') (loadingIndicator_classList s)\<rparr>"

definition questionForm_settle :: "outcome \<Rightarrow> page \<Rightarrow> page" where
  "questionForm_settle oc s =
     questionForm_finally
       (case oc of Resolved data \<Rightarrow> questionForm_then data s
                 | Rejected error \<Rightarrow> questionForm_catch error s)"

section \<open>The event loop\<close>

text \<open>
  The page reacts to one event at a time: a click on the index button, a
  submission of the question form, the user editing the question field, or the
  settling of the promise of a pending request (the \<open>i\<close>-th one, with the outcome
  the network gives it). A disabled button dispatches no click event, so the
  click handler runs only when the button is enabled. The callbacks of one
  promise chain run without another event in between.
\<close>

datatype browser_event = Click | Submit event | Input jsstring | Settle nat outcome

fun dispatch :: "browser_event \<Rightarrow> page \<Rightarrow> page" where
  "dispatch Click s = (if indexButton_disabled s then s else indexButton_click s)"
| "dispatch (Submit event) s = snd (questionForm_submit event s)"
| "dispatch (Input v) s = s\<lparr>question_value := v\<rparr>"
| "dispatch (Settle i oc) s =
     (if i < length (pending s) then
        (let r = pending s ! i;
             s' = s\<lparr>pending := take i (pending s) @ drop (Suc i) (pending s)\<rparr>
         in if url r = url index_request then indexButton_settle oc s'
            else questionForm_settle oc s')
      else s)"

fun run :: "browser_event list \<Rightarrow> page \<Rightarrow> page" where
  "run [] s = s"
| "run (e # es) s = run es (dispatch e s)"

definition index_pending :: "page \<Rightarrow> request list" where
  "index_pending s = filter (\<lambda>r. url r = url index_request) (pending s)"

text \<open>
  While an indexing request is pending there is exactly one, and the button is
  disabled.
\<close>

definition index_guard :: "page \<Rightarrow> bool" where
  "index_guard s \<longleftrightarrow>
     index_pending s = [] \<or> (length (index_pending s) = 1 \<and> indexButton_disabled s)"

text \<open>A page at rest, as after loading: nothing requested, nothing shown.\<close>

definition idle_page :: page where
  "idle_page =
     \<lparr>indexButton_disabled = False, indexStatus = InnerHTML [], question_value = [],
      loadingIndicator_classList = [lit ''d-none''], answerSection_classList = [lit ''d-none''],
      answerContent = TextContent [], sourcesList = [], alerts = [], console = [],
      fetched = [], pending = []\<rparr>"

text \<open>
  Two responses of the question endpoint: the example of the specification,
  whose score is the number the JSON text \<^verbatim>\<open>0.873\<close> denotes, and one with the
  score \<^verbatim>\<open>1e19\<close>.
\<close>

definition paris_response :: response where
  "paris_response =
     \<lparr>success = True, message = [], answer = lit ''Paris'',
      sources = Some [\<lparr>filename = lit ''geo.txt'', score = to_double (873 / 1000)\<rparr>]\<rparr>"

definition big_response :: response where
  "big_response =
     \<lparr>success = True, message = [], answer = lit ''X'',
      sources = Some [\<lparr>filename = lit ''big.txt'', score = Finite (10 ^ 19)\<rparr>]\<rparr>"

section \<open>What the specification asks of a percentage\<close>

text \<open>
  The specification's words for the relevance of a source: the value formatted
  to one decimal place. \<open>spec_one_decimal x\<close> is the sign of \<open>x\<close>, the integer part
  of \<open>\<bar>x\<bar>\<close> rounded to the nearest tenth (a half rounds away from zero), a point,
  and the one digit of tenths.
\<close>

definition spec_one_decimal :: "rat \<Rightarrow> jsstring" where
  "spec_one_decimal x =
     (let n = \<lfloor>\<bar>x\<bar> * 10 + 1 / 2\<rfloor>
      in (if x < 0 then lit ''-'' else []) @ digits (n div 10) @ lit ''.'' @ digits (n mod 10))"

section \<open>Evaluation and arithmetic of the number model\<close>

declare count_digits.simps [simp del]
declare digits.simps [simp del]

lemma floor_rat_numeral_div [simp]:
  "\<lfloor>(numeral a :: rat) / numeral b\<rfloor> = numeral a div numeral b"
  using floor_divide_of_int_eq [of "numeral a" "numeral b", where ?'a = rat] by simp

lemma ceiling_rat_numeral_div [simp]:
  "\<lceil>(numeral a :: rat) / numeral b\<rceil> = - (- numeral a div numeral b)"
  using ceiling_divide_eq_div [of "numeral a" "numeral b", where ?'a = rat] by simp

lemma shortest_numeral:
  "shortest a n0 (numeral f) k =
     (case candidate a n0 k of Some s \<Rightarrow> (s, k)
      | None \<Rightarrow> shortest a n0 (pred_numeral f) (k + 1))"
  by (simp add: numeral_eq_Suc)

lemmas number_eval = to_double_def ilog_def powr_int_def round_ties_even_def Let_def
  count_digits.simps digits.simps toFixed_def Number_toString_def Number_toString_pos_def
  candidate_def nearest_def shortest_numeral lit_def

lemma count_digits_nonpos [simp]: "n \<le> 0 \<Longrightarrow> count_digits b n = 0"
  by (simp add: count_digits.simps [of b n])

lemma count_digits_nonneg: "0 \<le> count_digits b n"
proof (induction b n rule: count_digits.induct)
  case (1 b n)
  then show ?case by (cases "0 < n \<and> 1 < b") (auto simp: count_digits.simps [of b n])
qed

lemma count_digits_pos: "0 < n \<Longrightarrow> 1 < b \<Longrightarrow> 0 < count_digits b n"
proof (induction b n rule: count_digits.induct)
  case (1 b n)
  have nn: "0 \<le> n div b" using 1(2,3) by (simp add: pos_imp_zdiv_nonneg_iff)
  have "0 \<le> count_digits b (n div b)"
    by (rule count_digits_nonneg)
  then show ?case using 1(2,3) by (simp add: count_digits.simps [of b n])
qed

lemma count_digits_upper: "1 < b \<Longrightarrow> 0 \<le> n \<Longrightarrow> n < b ^ nat (count_digits b n)"
proof (induction b n rule: count_digits.induct)
  case (1 b n)
  show ?case
  proof (cases "0 < n")
    case False
    then show ?thesis using 1(2,3) by (simp add: count_digits.simps [of b n])
  next
    case True
    have nn: "0 \<le> n div b" using True 1(2) by (simp add: pos_imp_zdiv_nonneg_iff)
    have ih: "n div b < b ^ nat (count_digits b (n div b))"
      using 1 True nn by simp
    have c0: "0 \<le> count_digits b (n div b)"
      by (rule count_digits_nonneg)
    have m: "n mod b < b" using 1(2) by simp
    have e: "b * (n div b) + n mod b = n" by (rule mult_div_mod_eq)
    have "n < b * (n div b) + b" using m e by linarith
    then have "n < b * (n div b + 1)" by (simp add: distrib_left)
    also have "\<dots> \<le> b * b ^ nat (count_digits b (n div b))"
      using ih 1(2) by (simp add: mult_left_mono)
    finally show ?thesis
      using True 1(2) c0 by (simp add: count_digits.simps [of b n] nat_add_distrib)
  qed
qed

lemma count_digits_lower: "1 < b \<Longrightarrow> 0 < n \<Longrightarrow> b ^ nat (count_digits b n - 1) \<le> n"
proof (induction b n rule: count_digits.induct)
  case (1 b n)
  have nn: "0 \<le> n div b" using 1(2,3) by (simp add: pos_imp_zdiv_nonneg_iff)
  show ?case
  proof (cases "0 < n div b")
    case False
    then have "count_digits b (n div b) = 0" by (simp add: count_digits.simps [of b "n div b"])
    then show ?thesis using 1(2,3) by (simp add: count_digits.simps [of b n])
  next
    case True
    have ih: "b ^ nat (count_digits b (n div b) - 1) \<le> n div b"
      using 1 True by simp
    have cp: "0 < count_digits b (n div b)"
      using count_digits_pos [OF True 1(2)] .
    have "b * b ^ nat (count_digits b (n div b) - 1) \<le> b * (n div b)"
      using ih 1(2) by (simp add: mult_left_mono)
    also have "\<dots> \<le> n"
    proof -
      have m: "0 \<le> n mod b" using 1(2) by simp
      have e: "b * (n div b) + n mod b = n" by (rule mult_div_mod_eq)
      show ?thesis using m e by linarith
    qed
    finally have "b ^ Suc (nat (count_digits b (n div b) - 1)) \<le> n" by simp
    moreover have "Suc (nat (count_digits b (n div b) - 1)) = nat (count_digits b (n div b))"
      using cp by simp
    ultimately show ?thesis
      using 1(2,3) by (simp add: count_digits.simps [of b n])
  qed
qed


lemma ilog_lower:
  assumes "0 < a" and "1 < b"
  shows "powr_int b (ilog b a) \<le> a"
proof (cases "1 \<le> a")
  case True
  then have f: "0 < \<lfloor>a\<rfloor>" by linarith
  have c: "0 < count_digits b \<lfloor>a\<rfloor>" using count_digits_pos [OF f assms(2)] .
  have "rat_of_int (b ^ nat (count_digits b \<lfloor>a\<rfloor> - 1)) \<le> rat_of_int \<lfloor>a\<rfloor>"
    using count_digits_lower [OF assms(2) f] by (simp only: of_int_le_iff)
  also have "\<dots> \<le> a" by simp
  finally show ?thesis using True c by (simp add: ilog_def powr_int_def)
next
  case False
  then have a1: "a < 1" by simp
  have "1 < 1 / a" using assms(1) a1 by simp
  then have n: "0 < \<lceil>1 / a\<rceil> - 1" by linarith
  have c: "0 < count_digits b (\<lceil>1 / a\<rceil> - 1)" using count_digits_pos [OF n assms(2)] .
  have "\<lceil>1 / a\<rceil> - 1 < b ^ nat (count_digits b (\<lceil>1 / a\<rceil> - 1))"
    using count_digits_upper [OF assms(2) less_imp_le [OF n]] .
  then have "\<lceil>1 / a\<rceil> \<le> b ^ nat (count_digits b (\<lceil>1 / a\<rceil> - 1))" by simp
  then have D: "rat_of_int \<lceil>1 / a\<rceil> \<le> rat_of_int (b ^ nat (count_digits b (\<lceil>1 / a\<rceil> - 1)))"
    by (simp only: of_int_le_iff)
  have C: "1 / a \<le> rat_of_int \<lceil>1 / a\<rceil>" by (rule le_of_int_ceiling)
  have "1 / a \<le> rat_of_int (b ^ nat (count_digits b (\<lceil>1 / a\<rceil> - 1)))"
    by (rule order_trans [OF C D])
  then have le: "1 / a \<le> rat_of_int b ^ nat (count_digits b (\<lceil>1 / a\<rceil> - 1))"
    by (simp only: of_int_power)
  have bp: "0 < rat_of_int b ^ nat (count_digits b (\<lceil>1 / a\<rceil> - 1))"
    using assms(2) by simp
  have "1 / rat_of_int b ^ nat (count_digits b (\<lceil>1 / a\<rceil> - 1)) \<le> a"
    using le bp assms(1) by (simp add: field_simps)
  then show ?thesis using False c by (simp add: ilog_def powr_int_def)
qed

lemma ilog_upper:
  assumes "0 < a" and "1 < b"
  shows "a < powr_int b (ilog b a + 1)"
proof (cases "1 \<le> a")
  case True
  then have f: "0 < \<lfloor>a\<rfloor>" by linarith
  have c: "0 < count_digits b \<lfloor>a\<rfloor>" using count_digits_pos [OF f assms(2)] .
  have "\<lfloor>a\<rfloor> + 1 \<le> b ^ nat (count_digits b \<lfloor>a\<rfloor>)"
    using count_digits_upper [OF assms(2) less_imp_le [OF f]] by simp
  then have D: "rat_of_int (\<lfloor>a\<rfloor> + 1) \<le> rat_of_int (b ^ nat (count_digits b \<lfloor>a\<rfloor>))"
    by (simp only: of_int_le_iff)
  have C: "a < rat_of_int (\<lfloor>a\<rfloor> + 1)" by linarith
  have "a < rat_of_int (b ^ nat (count_digits b \<lfloor>a\<rfloor>))"
    by (rule less_le_trans [OF C D])
  then have "a < rat_of_int b ^ nat (count_digits b \<lfloor>a\<rfloor>)"
    by (simp only: of_int_power)
  then show ?thesis using True c by (simp add: ilog_def powr_int_def)
next
  case False
  then have a1: "a < 1" by simp
  have "1 < 1 / a" using assms(1) a1 by simp
  then have n: "0 < \<lceil>1 / a\<rceil> - 1" by linarith
  have c: "0 < count_digits b (\<lceil>1 / a\<rceil> - 1)" using count_digits_pos [OF n assms(2)] .
  show ?thesis
  proof (cases "count_digits b (\<lceil>1 / a\<rceil> - 1) = 1")
    case True
    then show ?thesis using False a1 by (simp add: ilog_def powr_int_def)
  next
    case ne: False
    have D: "rat_of_int (b ^ nat (count_digits b (\<lceil>1 / a\<rceil> - 1) - 1)) \<le> rat_of_int (\<lceil>1 / a\<rceil> - 1)"
      using count_digits_lower [OF assms(2) n] by (simp only: of_int_le_iff)
    have C: "rat_of_int (\<lceil>1 / a\<rceil> - 1) < 1 / a" by linarith
    have "rat_of_int (b ^ nat (count_digits b (\<lceil>1 / a\<rceil> - 1) - 1)) < 1 / a"
      by (rule le_less_trans [OF D C])
    then have lt: "rat_of_int b ^ nat (count_digits b (\<lceil>1 / a\<rceil> - 1) - 1) < 1 / a"
      by (simp only: of_int_power)
    have bp: "0 < rat_of_int b ^ nat (count_digits b (\<lceil>1 / a\<rceil> - 1) - 1)"
      using assms(2) by simp
    have "a < 1 / rat_of_int b ^ nat (count_digits b (\<lceil>1 / a\<rceil> - 1) - 1)"
      using lt bp assms(1) by (simp add: field_simps)
    define m where "m = count_digits b (\<lceil>1 / a\<rceil> - 1)"
    have lt': "a < 1 / rat_of_int b ^ nat (m - 1)"
      using \<open>a < 1 / rat_of_int b ^ nat (count_digits b (\<lceil>1 / a\<rceil> - 1) - 1)\<close>
      by (simp only: m_def)
    have il: "ilog b a = - m" using False by (simp add: ilog_def m_def)
    have m2: "2 \<le> m" using c ne by (simp add: m_def)
    have nn: "nat (- (- m + 1)) = nat (m - 1)" by simp
    have pw: "powr_int b (- m + 1) = 1 / rat_of_int b ^ nat (m - 1)"
      using m2 by (simp only: powr_int_def nn) simp
    show ?thesis unfolding il pw by (rule lt')
  qed
qed


lemma round_ties_even_bounds: "\<bar>rat_of_int (round_ties_even x) - x\<bar> \<le> 1 / 2"
proof -
  have "rat_of_int \<lfloor>x\<rfloor> \<le> x" and "x < rat_of_int \<lfloor>x\<rfloor> + 1" by linarith+
  then show ?thesis
    by (auto simp: round_ties_even_def Let_def)
qed

lemma powr_int_powi: "powr_int b e = rat_of_int b powi e"
  by (simp add: powr_int_def power_int_def inverse_eq_divide power_one_over)

lemma powr_int_pos: "0 < b \<Longrightarrow> 0 < powr_int b e"
  by (simp add: powr_int_def)

lemma powr_int_diff: "0 < b \<Longrightarrow> powr_int b (e - k) = powr_int b e / powr_int b k"
  by (simp add: powr_int_powi power_int_diff)

lemma to_double_bound:
  assumes "\<bar>q\<bar> \<le> 10 ^ 20"
  shows "\<exists>r. to_double q = Finite r \<and> \<bar>r\<bar> \<le> 2 * \<bar>q\<bar> + 1"
proof (cases "q = 0")
  case True
  then show ?thesis by (simp add: to_double_def)
next
  case False
  define a where "a = \<bar>q\<bar>"
  define e where "e = max (ilog 2 a) (- 1022)"
  define u where "u = powr_int 2 (e - 52)"
  define m where "m = round_ties_even (a / u)"
  have a0: "0 < a" using False by (simp add: a_def)
  have u0: "0 < u" by (simp add: u_def powr_int_pos)
  have ua: "u \<le> a + 1"
  proof (cases "- 1022 \<le> ilog 2 a")
    case True
    then have "e = ilog 2 a" by (simp add: e_def)
    then have "u = powr_int 2 (ilog 2 a) / powr_int 2 52"
      by (simp add: u_def powr_int_diff)
    also have "\<dots> \<le> powr_int 2 (ilog 2 a)"
      using powr_int_pos [of 2 "ilog 2 a"] by (simp add: powr_int_def [of 2 52] field_simps)
    also have "\<dots> \<le> a" using ilog_lower [OF a0] by simp
    finally show ?thesis by simp
  next
    case False
    then have "e = - 1022" by (simp add: e_def)
    then have "u = 1 / 2 ^ 1074" by (simp add: u_def powr_int_def)
    also have "\<dots> \<le> 1" by simp
    finally show ?thesis using a0 by simp
  qed
  have "rat_of_int m - a / u \<le> 1 / 2" and lo: "- (1 / 2) \<le> rat_of_int m - a / u"
    using round_ties_even_bounds [of "a / u"] unfolding m_def by linarith+
  then have "rat_of_int m * u \<le> (a / u + 1 / 2) * u"
    using u0 by (simp add: mult_right_mono)
  also have "\<dots> = a + u / 2" using u0 by (simp add: field_simps)
  also have "\<dots> \<le> 2 * a + 1" using ua a0 by simp
  finally have r1: "rat_of_int m * u \<le> 2 * a + 1" .
  have "0 \<le> a / u" using a0 u0 by simp
  then have "- (1 / 2) \<le> rat_of_int m" using lo by linarith
  then have m0: "0 \<le> m" by linarith
  then have r0: "0 \<le> rat_of_int m * u" using u0 by simp
  have "2 * a + 1 < powr_int 2 1024"
  proof -
    have "2 * a + 1 \<le> 2 * 10 ^ 20 + 1" using assms by (simp add: a_def)
    also have "\<dots> < powr_int 2 1024" by (simp add: powr_int_def)
    finally show ?thesis .
  qed
  then have nov: "\<not> powr_int 2 1024 \<le> rat_of_int m * u" using r1 by linarith
  have "to_double q = Finite (if q < 0 then - (rat_of_int m * u) else rat_of_int m * u)"
    using False nov
    by (simp add: to_double_def Let_def a_def [symmetric] e_def [symmetric] u_def [symmetric]
        m_def [symmetric])
  moreover have "\<bar>if q < 0 then - (rat_of_int m * u) else rat_of_int m * u\<bar> \<le> 2 * \<bar>q\<bar> + 1"
    using r0 r1 unfolding a_def by (cases "q < 0") simp_all
  ultimately show ?thesis by blast
qed

lemma percent_in_range:
  assumes "\<bar>q\<bar> \<le> 10 ^ 18"
  shows "\<exists>x. multiply (Finite q) (Finite 100) = Finite x \<and> \<bar>x\<bar> < 10 ^ 21"
proof -
  have "\<bar>q * 100\<bar> \<le> 10 ^ 20" using assms by (simp add: abs_mult)
  from to_double_bound [OF this] obtain r
    where r: "to_double (q * 100) = Finite r" "\<bar>r\<bar> \<le> 2 * \<bar>q * 100\<bar> + 1" by blast
  have "\<bar>r\<bar> < 10 ^ 21" using r(2) assms by (simp add: abs_mult)
  then show ?thesis using r(1) by simp
qed

lemma digits_nonempty: "digits n \<noteq> []"
  by (cases "n < 10") (simp_all add: digits.simps [of n])

lemma digits_small: "n < 10 \<Longrightarrow> digits n = [48 + word_of_int n]"
  by (simp add: digits.simps [of n])

lemma digits_large: "\<not> n < 10 \<Longrightarrow> digits n = digits (n div 10) @ [48 + word_of_int (n mod 10)]"
  by (simp add: digits.simps [of n])

lemma toFixed_one_decimal:
  assumes "\<bar>x\<bar> < 10 ^ 21"
  shows "toFixed 1 (Finite x) = spec_one_decimal x"
proof -
  define n where "n = \<lfloor>\<bar>x\<bar> * 10 + 1 / 2\<rfloor>"
  have n0: "0 \<le> n" unfolding n_def by (simp add: floor_le_iff)
  have m: "n mod 10 < 10" by simp
  have r: "\<not> 10 ^ 21 \<le> \<bar>x\<bar>" using assms by simp
  show ?thesis
  proof (cases "n < 10")
    case True
    then have "n div 10 = 0" "n mod 10 = n" using n0 by simp_all
    then show ?thesis using True r
      by (simp add: toFixed_def spec_one_decimal_def Let_def n_def [symmetric]
          digits_small lit_def)
  next
    case False
    have l: "\<not> length (digits n) \<le> 1"
      using digits_nonempty [of "n div 10"] by (simp add: digits_large [OF False] Suc_le_eq)
    have d1: "digits (n mod 10) = [48 + word_of_int (n mod 10)]"
      by (rule digits_small [OF m])
    show ?thesis using l r
      by (simp add: toFixed_def spec_one_decimal_def Let_def n_def [symmetric] d1)
         (simp add: digits_large [OF False])
  qed
qed

subsection \<open>Values used in the examples\<close>

lemma to_double_0873: "to_double (873 / 1000) = Finite (3931642474694443 / 4503599627370496)"
  by (simp add: number_eval split del: if_split)

lemma product_0873:
  "multiply (to_double (873 / 1000)) (Finite 100) = Finite (6143191366710067 / 70368744177664)"
  by (simp add: to_double_0873) (simp add: number_eval split del: if_split)

lemma percent_0873: "toFixed 1 (multiply (to_double (873 / 1000)) (Finite 100)) = lit ''87.3''"
  by (simp add: to_double_0873) (simp add: number_eval split del: if_split)

lemma to_double_1e19: "to_double (10 ^ 19) = Finite (10 ^ 19)"
  by (simp add: number_eval split del: if_split)

lemma to_double_1e21: "to_double (10 ^ 21) = Finite (10 ^ 21)"
  by (simp add: number_eval split del: if_split)

lemma Number_toString_1e21: "Number_toString (Finite (10 ^ 21)) = lit ''1e+21''"
  by (simp add: number_eval split del: if_split)

lemma spec_one_decimal_1e21: "spec_one_decimal (10 ^ 21) = lit ''1000000000000000000000.0''"
  by (simp add: spec_one_decimal_def Let_def digits.simps lit_def split del: if_split)

section \<open>What the handlers do to the page\<close>

lemma forEach_source_eq:
  "forEach_source srcs s = s\<lparr>sourcesList := sourcesList s @ map source_item srcs\<rparr>"
  by (induction srcs arbitrary: s) (simp_all add: appendChild_def)

lemma questionForm_settle_success:
  assumes "success data" and "sources data = Some srcs" and "srcs \<noteq> []"
  shows "questionForm_settle (Resolved data) s =
           s\<lparr>answerContent := TextContent (answer data),
             sourcesList := map source_item srcs,
             answerSection_classList := classList_remove (lit ''d-none'') (answerSection_classList s),
             loadingIndicator_classList := classList_add (lit ''d-none'') (loadingIndicator_classList s)\<rparr>"
  using assms
  by (simp add: questionForm_settle_def questionForm_finally_def questionForm_then_def
      forEach_source_eq Let_def)

lemma source_item_one_decimal:
  assumes "multiply (score src) (Finite 100) = Finite x" and "\<bar>x\<bar> < 10 ^ 21"
  shows "textContent (source_item src) =
           filename src @ lit '' (Relevanz: '' @ spec_one_decimal x @ lit ''%)''"
proof -
  have "toFixed 1 (multiply (score src) (Finite 100)) = spec_one_decimal x"
    unfolding assms(1) by (rule toFixed_one_decimal [OF assms(2)])
  then show ?thesis by (simp add: source_item_def del: multiply.simps)
qed

lemma dropWhile_all_iff:
  "(\<forall>x\<in>set (dropWhile P xs). P x) \<longleftrightarrow> dropWhile P xs = []"
proof
  assume a: "\<forall>x\<in>set (dropWhile P xs). P x"
  show "dropWhile P xs = []"
  proof (rule ccontr)
    assume n: "dropWhile P xs \<noteq> []"
    then have "hd (dropWhile P xs) \<in> set (dropWhile P xs)" by simp
    moreover have "\<not> P (hd (dropWhile P xs))" using n by (rule hd_dropWhile)
    ultimately show False using a by blast
  qed
next
  assume e: "dropWhile P xs = []"
  show "\<forall>x\<in>set (dropWhile P xs). P x" unfolding e by simp
qed

lemma trim_empty_iff: "trim s = [] \<longleftrightarrow> (\<forall>c\<in>set s. is_white_space c)"
  by (simp add: trim_def dropWhile_eq_Nil_conv dropWhile_all_iff)

lemma pending_indexButton_settle [simp]: "pending (indexButton_settle oc s) = pending s"
  by (cases oc)
     (simp_all add: indexButton_settle_def indexButton_finally_def indexButton_then_def
       indexButton_catch_def console_error_def)

lemma pending_questionForm_settle [simp]: "pending (questionForm_settle oc s) = pending s"
  by (cases oc)
     (simp_all add: questionForm_settle_def questionForm_finally_def questionForm_then_def
       questionForm_catch_def console_error_def alert_def appendChild_def forEach_source_eq
       Let_def split: option.splits)

lemma disabled_questionForm_settle [simp]:
  "indexButton_disabled (questionForm_settle oc s) = indexButton_disabled s"
  by (cases oc)
     (simp_all add: questionForm_settle_def questionForm_finally_def questionForm_then_def
       questionForm_catch_def console_error_def alert_def appendChild_def forEach_source_eq
       Let_def split: option.splits)

lemma ask_url_not_index: "url (ask_request q) \<noteq> url index_request"
  by (simp add: ask_request_def index_request_def lit_def)

lemma index_pending_submit:
  "index_pending (snd (questionForm_submit event s)) = index_pending s"
  using ask_url_not_index
  by (simp add: questionForm_submit_def index_pending_def alert_def fetch_def Let_def)

lemma disabled_submit:
  "indexButton_disabled (snd (questionForm_submit event s)) = indexButton_disabled s"
  by (simp add: questionForm_submit_def alert_def fetch_def Let_def)

lemma index_pending_click:
  "index_pending (indexButton_click s) = index_pending s @ [index_request]"
  by (simp add: indexButton_click_def index_pending_def fetch_def Let_def)

lemma disabled_click: "indexButton_disabled (indexButton_click s)"
  by (simp add: indexButton_click_def fetch_def Let_def)

lemma filter_remove_nth:
  assumes "i < length xs"
  shows "filter P xs =
           filter P (take i xs) @ (if P (xs ! i) then [xs ! i] else []) @ filter P (drop (Suc i) xs)"
proof -
  have "filter P xs = filter P (take i xs @ xs ! i # drop (Suc i) xs)"
    using id_take_nth_drop [OF assms] by simp
  then show ?thesis by simp
qed

lemma index_guard_dispatch:
  assumes "index_guard s"
  shows "index_guard (dispatch e s)"
proof (cases e)
  case Click
  show ?thesis
  proof (cases "indexButton_disabled s")
    case True
    then show ?thesis using assms Click by simp
  next
    case False
    then have "index_pending s = []" using assms by (simp add: index_guard_def)
    then show ?thesis using False Click
      by (simp add: index_guard_def index_pending_click disabled_click)
  qed
next
  case (Submit event)
  then show ?thesis using assms
    by (simp add: index_guard_def index_pending_submit disabled_submit)
next
  case (Input v)
  then show ?thesis using assms by (simp add: index_guard_def index_pending_def)
next
  case (Settle i oc)
  show ?thesis
  proof (cases "i < length (pending s)")
    case False
    then show ?thesis using assms Settle by simp
  next
    case True
    note split = filter_remove_nth [OF True, of "\<lambda>r. url r = url index_request"]
    show ?thesis
    proof (cases "url (pending s ! i) = url index_request")
      case idx: True
      have "index_pending s \<noteq> []"
        using split idx by (simp add: index_pending_def)
      then have one: "length (index_pending s) = 1" using assms by (simp add: index_guard_def)
      have "length (index_pending s) =
              Suc (length (filter (\<lambda>r. url r = url index_request)
                     (take i (pending s) @ drop (Suc i) (pending s))))"
        using split idx by (simp add: index_pending_def)
      then have "filter (\<lambda>r. url r = url index_request)
                   (take i (pending s) @ drop (Suc i) (pending s)) = []"
        using one by simp
      then show ?thesis using True idx Settle
        by (simp add: index_guard_def index_pending_def Let_def)
    next
      case ask: False
      have "index_pending s =
              filter (\<lambda>r. url r = url index_request)
                (take i (pending s) @ drop (Suc i) (pending s))"
        using split ask by (simp add: index_pending_def)
      then show ?thesis using True ask Settle assms
        by (simp add: index_guard_def index_pending_def Let_def)
    qed
  qed
qed

lemma index_guard_run: "index_guard s \<Longrightarrow> index_guard (run evs s)"
  by (induction evs arbitrary: s) (simp_all add: index_guard_dispatch)

section \<open>Properties of the index trigger\<close>

text \<open>
  C2. Every request cycle of the index trigger ends with the button enabled:
  whatever state the page is in when the promise settles, and whether the
  response reports success, reports failure, or the request was rejected, the
  button is not disabled afterwards.
\<close>

theorem indexButton_enabled_after_cycle:
  "indexButton_disabled (indexButton_settle (Resolved (data\<lparr>success := True\<rparr>)) s) = False
   \<and> indexButton_disabled (indexButton_settle (Resolved (data\<lparr>success := False\<rparr>)) s) = False
   \<and> indexButton_disabled (indexButton_settle (Rejected error) s) = False
   \<and> indexButton_disabled (indexButton_settle oc (indexButton_click s)) = False"
  by (simp add: indexButton_settle_def indexButton_finally_def)

text \<open>
  C6. When the indexing request is rejected (the network call fails or the body
  is not JSON), the status area is set to the danger alert with \<^verbatim>\<open>Fehler: \<close> and
  the message of the caught error, the error is logged with
  \<^verbatim>\<open>console.error\<close>, and the button is enabled again.
\<close>

theorem indexButton_transport_failure:
  \<open>indexStatus (indexButton_settle (Rejected error) s) =
     InnerHTML (lit ''<div class="alert alert-danger">Fehler: '' @ error_message error @ lit ''</div>'')
   \<and> console (indexButton_settle (Rejected error) s) = console s @ [(lit ''Fehler:'', error)]
   \<and> indexButton_disabled (indexButton_settle (Rejected error) s) = False\<close>
  by (simp add: indexButton_settle_def indexButton_finally_def indexButton_catch_def
      console_error_def)

text \<open>
  C9. The index handler assigns the server's message, and on a rejection the
  error's message, to \<^verbatim>\<open>innerHTML\<close> of the status area, unescaped between the
  tags of the alert, so the HTML parser reads them as markup; the question
  handler assigns the answer to \<^verbatim>\<open>textContent\<close>, as a text node.
\<close>

theorem indexStatus_is_markup:
  \<open>indexStatus (indexButton_settle (Resolved data) s) =
     InnerHTML (lit (if success data then ''<div class="alert alert-success">''
                     else ''<div class="alert alert-danger">'') @ message data @ lit ''</div>'')
   \<and> indexStatus (indexButton_settle (Rejected error) s) =
     InnerHTML (lit ''<div class="alert alert-danger">Fehler: '' @ error_message error @ lit ''</div>'')
   \<and> answerContent (questionForm_settle (Resolved (data\<lparr>success := True\<rparr>)) s) =
     TextContent (answer data)\<close>
  by (simp add: indexButton_settle_def indexButton_finally_def indexButton_then_def
      indexButton_catch_def console_error_def
      questionForm_settle_def questionForm_finally_def questionForm_then_def
      appendChild_def forEach_source_eq Let_def split: option.splits)

text \<open>
  C8. Starting from a page with no indexing request pending, after any sequence
  of events at most one indexing request is pending, and while one is pending
  the button is disabled and a click on it does nothing. The click handler
  disables the button before it calls \<^verbatim>\<open>fetch\<close>: the request is issued from a
  state in which the button is already disabled.
\<close>

theorem indexButton_disabled_while_pending:
  assumes \<open>index_pending s0 = []\<close>
  shows \<open>length (index_pending (run evs s0)) \<le> 1
         \<and> (index_pending (run evs s0) \<noteq> [] \<longrightarrow>
              indexButton_disabled (run evs s0) \<and> dispatch Click (run evs s0) = run evs s0)
         \<and> indexButton_click s =
             fetch index_request
               (s\<lparr>indexButton_disabled := True,
                  indexStatus :=
                    InnerHTML (lit ''<div class="alert alert-info">Indexierung gestartet...</div>'')\<rparr>)\<close>
proof -
  have "index_guard s0" using assms by (simp add: index_guard_def)
  then have "index_guard (run evs s0)" by (rule index_guard_run)
  then show ?thesis
    by (auto simp: index_guard_def indexButton_click_def)
qed

text \<open>
  Two clicks in a row issue one request; after the first request has settled, a
  click issues the next.
\<close>

theorem indexButton_disabled_while_pending_witness:
  \<open>index_pending idle_page = []
   \<and> index_pending (run [Click, Input (lit ''why?''), Click] idle_page) = [index_request]
   \<and> indexButton_disabled (run [Click, Input (lit ''why?''), Click] idle_page)
   \<and> dispatch Click (run [Click, Input (lit ''why?''), Click] idle_page) =
       run [Click, Input (lit ''why?''), Click] idle_page
   \<and> index_pending (run [Click, Settle 0 (Rejected (Error (lit ''Failed to fetch''))), Click] idle_page) =
       [index_request]\<close>
proof -
  have h: "index_pending idle_page = []" by (simp add: index_pending_def idle_page_def)
  have p: "index_pending (run [Click, Input (lit ''why?''), Click] idle_page) = [index_request]"
    by (simp add: index_pending_def idle_page_def indexButton_click_def fetch_def)
  have q: "index_pending (run [Click, Settle 0 (Rejected (Error (lit ''Failed to fetch''))), Click] idle_page) =
       [index_request]"
    by (simp add: index_pending_def idle_page_def indexButton_click_def fetch_def
        indexButton_settle_def indexButton_finally_def indexButton_catch_def console_error_def)
  show ?thesis
    using indexButton_disabled_while_pending
            [OF h, of "[Click, Input (lit ''why?''), Click]"] h p q
    by simp
qed

section \<open>Properties of the question form\<close>

text \<open>
  C1, as amended. For a response with \<open>success\<close> true, an answer and a non-empty
  list of sources such that the product of every score and 100 (as JavaScript
  computes it) is finite and below \<open>10\<^sup>2\<^sup>1\<close> in magnitude, the answer element holds
  the answer as a text node, and the sources list holds one entry per source, in
  order, whose text is the filename, \<^verbatim>\<open> (Relevanz: \<close>, that product formatted to
  one decimal place, and \<^verbatim>\<open>%)\<close>. By \<open>percent_in_range\<close> this covers every score of
  magnitude at most \<open>10\<^sup>1\<^sup>8\<close>.
\<close>

theorem questionForm_renders_answer:
  assumes "success data" and "sources data = Some srcs" and "srcs \<noteq> []"
    and "\<forall>src\<in>set srcs. \<exists>x. multiply (score src) (Finite 100) = Finite x \<and> \<bar>x\<bar> < 10 ^ 21"
  shows "answerContent (questionForm_settle (Resolved data) s) = TextContent (answer data)
         \<and> list_all2
              (\<lambda>src li. \<exists>x. multiply (score src) (Finite 100) = Finite x
                 \<and> textContent li =
                     filename src @ lit '' (Relevanz: '' @ spec_one_decimal x @ lit ''%)'')
              srcs (sourcesList (questionForm_settle (Resolved data) s))"
proof -
  have "\<exists>x. multiply (score src) (Finite 100) = Finite x
          \<and> textContent (source_item src) =
              filename src @ lit '' (Relevanz: '' @ spec_one_decimal x @ lit ''%)''"
    if "src \<in> set srcs" for src
  proof -
    from assms(4) that obtain x
      where x: "multiply (score src) (Finite 100) = Finite x" "\<bar>x\<bar> < 10 ^ 21" by blast
    show ?thesis using x(1) source_item_one_decimal [OF x] by blast
  qed
  then have "list_all2
              (\<lambda>src li. \<exists>x. multiply (score src) (Finite 100) = Finite x
                 \<and> textContent li =
                     filename src @ lit '' (Relevanz: '' @ spec_one_decimal x @ lit ''%)'')
              srcs (map source_item srcs)"
    by (simp add: list_all2_map2 list_all2_same)
  then show ?thesis
    by (simp add: questionForm_settle_success [OF assms(1-3)])
qed

text \<open>
  The example of the specification: answer \<^verbatim>\<open>Paris\<close>, one source \<^verbatim>\<open>geo.txt\<close>
  with score 0.873.
\<close>

theorem questionForm_renders_answer_witness:
  "success paris_response
   \<and> sources paris_response = Some [\<lparr>filename = lit ''geo.txt'', score = to_double (873 / 1000)\<rparr>]
   \<and> multiply (to_double (873 / 1000)) (Finite 100) = Finite (6143191366710067 / 70368744177664)
   \<and> \<bar>6143191366710067 / 70368744177664 :: rat\<bar> < 10 ^ 21
   \<and> answerContent (questionForm_settle (Resolved paris_response) idle_page) = TextContent (lit ''Paris'')
   \<and> map textContent (sourcesList (questionForm_settle (Resolved paris_response) idle_page)) =
       [lit ''geo.txt (Relevanz: 87.3%)'']"
proof -
  have h1: "success paris_response" by (simp add: paris_response_def)
  have h2: "sources paris_response =
              Some [\<lparr>filename = lit ''geo.txt'', score = to_double (873 / 1000)\<rparr>]"
    by (simp add: paris_response_def)
  have h3: "[\<lparr>filename = lit ''geo.txt'', score = to_double (873 / 1000)\<rparr>] \<noteq> []" by simp
  have h4: "\<forall>src\<in>set [\<lparr>filename = lit ''geo.txt'', score = to_double (873 / 1000)\<rparr>].
              \<exists>x. multiply (score src) (Finite 100) = Finite x \<and> \<bar>x\<bar> < 10 ^ 21"
    by (intro ballI exI [of _ "6143191366710067 / 70368744177664"])
       (simp add: product_0873 del: multiply.simps)
  have tc: "textContent (source_item \<lparr>filename = lit ''geo.txt'', score = to_double (873 / 1000)\<rparr>) =
               lit ''geo.txt (Relevanz: 87.3%)''"
    by (simp only: source_item_def percent_0873 source.simps element.simps) (simp add: lit_def)
  have rendered:
    "answerContent (questionForm_settle (Resolved paris_response) idle_page) = TextContent (lit ''Paris'')
     \<and> map textContent (sourcesList (questionForm_settle (Resolved paris_response) idle_page)) =
         [lit ''geo.txt (Relevanz: 87.3%)'']"
    using questionForm_renders_answer [OF h1 h2 h3 h4, of idle_page]
    by (simp add: questionForm_settle_success [OF h1 h2 h3] tc) (simp add: paris_response_def)
  show ?thesis
    using h1 h2 product_0873 rendered by (simp del: multiply.simps)
qed

text \<open>
  C1 as stated fails for a large score: for the score \<^verbatim>\<open>1e19\<close> the product is
  exactly \<open>10\<^sup>2\<^sup>1\<close>, which \<^verbatim>\<open>toFixed(1)\<close> prints in exponent notation and not with
  one decimal place.
\<close>

theorem questionForm_large_score_counterexample:
  "to_double (10 ^ 19) = Finite (10 ^ 19)
   \<and> multiply (Finite (10 ^ 19)) (Finite 100) = Finite (10 ^ 21)
   \<and> map textContent (sourcesList (questionForm_settle (Resolved big_response) idle_page)) =
       [lit ''big.txt (Relevanz: 1e+21%)'']
   \<and> map textContent (sourcesList (questionForm_settle (Resolved big_response) idle_page)) \<noteq>
       [lit ''big.txt (Relevanz: '' @ spec_one_decimal (10 ^ 21) @ lit ''%)'']"
proof -
  have m: "multiply (Finite (10 ^ 19)) (Finite 100) = Finite (10 ^ 21)"
    using to_double_1e21 by simp
  have t: "toFixed 1 (Finite (10 ^ 21)) = lit ''1e+21''"
    using Number_toString_1e21 by (simp add: toFixed_def)
  have h1: "success big_response" by (simp add: big_response_def)
  have h2: "sources big_response = Some [\<lparr>filename = lit ''big.txt'', score = Finite (10 ^ 19)\<rparr>]"
    by (simp add: big_response_def)
  have tc: "textContent (source_item \<lparr>filename = lit ''big.txt'', score = Finite (10 ^ 19)\<rparr>) =
               lit ''big.txt (Relevanz: 1e+21%)''"
    by (simp only: source_item_def m t source.simps element.simps) (simp add: lit_def)
  have ne: "lit ''big.txt (Relevanz: 1e+21%)'' \<noteq>
              lit ''big.txt (Relevanz: '' @ spec_one_decimal (10 ^ 21) @ lit ''%)''"
    by (simp only: spec_one_decimal_1e21) (simp add: lit_def)
  show ?thesis
    using to_double_1e19 m ne tc
    by (simp add: questionForm_settle_success [OF h1 h2] del: multiply.simps)
qed


text \<open>
  C7, as amended. Whenever the product of the score and 100 is finite and below
  \<open>10\<^sup>2\<^sup>1\<close> in magnitude, the entry shows that product formatted to one decimal
  place; this covers every score of magnitude at most \<open>10\<^sup>1\<^sup>8\<close>, inside \<open>[0, 1]\<close> or
  not. No score is clamped or rejected, and what follows the filename depends on
  the score alone.
\<close>

theorem source_score_one_decimal:
  "(multiply s (Finite 100) = Finite x \<and> \<bar>x\<bar> < 10 ^ 21 \<longrightarrow>
      textContent (source_item \<lparr>filename = f, score = s\<rparr>) =
        f @ lit '' (Relevanz: '' @ spec_one_decimal x @ lit ''%)'')
   \<and> (\<bar>q\<bar> \<le> 10 ^ 18 \<longrightarrow>
        (\<exists>y. multiply (Finite q) (Finite 100) = Finite y \<and> \<bar>y\<bar> < 10 ^ 21))
   \<and> (score src = score src' \<longrightarrow>
        drop (length (filename src)) (textContent (source_item src)) =
        drop (length (filename src')) (textContent (source_item src')))"
proof (intro conjI impI)
  assume a: "multiply s (Finite 100) = Finite x \<and> \<bar>x\<bar> < 10 ^ 21"
  then have mx: "multiply s (Finite 100) = Finite x" and rx: "\<bar>x\<bar> < 10 ^ 21"
    by blast+
  have "toFixed 1 (multiply s (Finite 100)) = spec_one_decimal x"
    unfolding mx by (rule toFixed_one_decimal [OF rx])
  then show "textContent (source_item \<lparr>filename = f, score = s\<rparr>) =
               f @ lit '' (Relevanz: '' @ spec_one_decimal x @ lit ''%)''"
    by (simp add: source_item_def del: multiply.simps)
next
  assume "\<bar>q\<bar> \<le> 10 ^ 18"
  then show "\<exists>y. multiply (Finite q) (Finite 100) = Finite y \<and> \<bar>y\<bar> < 10 ^ 21"
    by (rule percent_in_range)
next
  assume "score src = score src'"
  then show "drop (length (filename src)) (textContent (source_item src)) =
             drop (length (filename src')) (textContent (source_item src'))"
    by (simp add: source_item_def del: multiply.simps)
qed

text \<open>The score 2.5, outside \<open>[0, 1]\<close>, is shown as 250.0 percent.\<close>

theorem source_score_one_decimal_witness:
  "multiply (Finite (5 / 2)) (Finite 100) = Finite 250 \<and> \<bar>250 :: rat\<bar> < 10 ^ 21
   \<and> \<bar>5 / 2 :: rat\<bar> \<le> 10 ^ 18
   \<and> textContent (source_item \<lparr>filename = lit ''a.txt'', score = Finite (5 / 2)\<rparr>) =
       lit ''a.txt (Relevanz: 250.0%)''"
proof -
  have m: "multiply (Finite (5 / 2)) (Finite 100) = Finite 250"
    by (simp add: number_eval split del: if_split)
  have r: "\<bar>250 :: rat\<bar> < 10 ^ 21" by simp
  have d: "spec_one_decimal 250 = lit ''250.0''"
    by (simp add: spec_one_decimal_def Let_def digits.simps lit_def split del: if_split)
  have "textContent (source_item \<lparr>filename = lit ''a.txt'', score = Finite (5 / 2)\<rparr>) =
          lit ''a.txt'' @ lit '' (Relevanz: '' @ spec_one_decimal 250 @ lit ''%)''"
    using source_score_one_decimal [of "Finite (5 / 2)" 250 "lit ''a.txt''"] m r by blast
  then have "textContent (source_item \<lparr>filename = lit ''a.txt'', score = Finite (5 / 2)\<rparr>) =
          lit ''a.txt (Relevanz: 250.0%)''"
    by (simp only: d) (simp add: lit_def)
  then show ?thesis using m r by simp
qed

text \<open>
  C7 as stated fails for the score \<^verbatim>\<open>-1e19\<close>: the product is \<open>-10\<^sup>2\<^sup>1\<close>, shown in
  exponent notation.
\<close>

theorem source_score_large_counterexample:
  "to_double (- (10 ^ 19)) = Finite (- (10 ^ 19))
   \<and> multiply (Finite (- (10 ^ 19))) (Finite 100) = Finite (- (10 ^ 21))
   \<and> textContent (source_item \<lparr>filename = lit ''a.txt'', score = Finite (- (10 ^ 19))\<rparr>) =
       lit ''a.txt (Relevanz: -1e+21%)''
   \<and> textContent (source_item \<lparr>filename = lit ''a.txt'', score = Finite (- (10 ^ 19))\<rparr>) \<noteq>
       lit ''a.txt (Relevanz: '' @ spec_one_decimal (- (10 ^ 21)) @ lit ''%)''"
proof -
  have d: "to_double (- (10 ^ 19)) = Finite (- (10 ^ 19))"
    by (simp add: number_eval split del: if_split)
  have m: "multiply (Finite (- (10 ^ 19))) (Finite 100) = Finite (- (10 ^ 21))"
    by (simp add: number_eval split del: if_split)
  have t: "toFixed 1 (Finite (- (10 ^ 21))) = lit ''-1e+21''"
    using Number_toString_1e21 by (simp add: toFixed_def lit_def)
  have tc: "textContent (source_item \<lparr>filename = lit ''a.txt'', score = Finite (- (10 ^ 19))\<rparr>) =
               lit ''a.txt (Relevanz: -1e+21%)''"
    by (simp only: source_item_def m t source.simps element.simps) (simp add: lit_def)
  have sp: "spec_one_decimal (- (10 ^ 21)) = lit ''-1000000000000000000000.0''"
    by (simp add: spec_one_decimal_def Let_def digits.simps lit_def split del: if_split)
  have ne: "lit ''a.txt (Relevanz: -1e+21%)'' \<noteq>
              lit ''a.txt (Relevanz: '' @ spec_one_decimal (- (10 ^ 21)) @ lit ''%)''"
    by (simp only: sp) (simp add: lit_def)
  show ?thesis
    using d m tc ne by (simp del: multiply.simps)
qed


text \<open>
  C3. When the question field is empty after trimming, the submit handler shows
  the warning and returns: no request is issued, and the loading indicator and
  the answer section keep their classes.
\<close>

theorem questionForm_empty_question:
  assumes "trim (question_value s) = []"
  shows "questionForm_submit event s =
           (event\<lparr>defaultPrevented := True\<rparr>,
            s\<lparr>alerts := alerts s @ [lit ''Bitte geben Sie eine Frage ein.'']\<rparr>)
         \<and> fetched (snd (questionForm_submit event s)) = fetched s
         \<and> pending (snd (questionForm_submit event s)) = pending s
         \<and> loadingIndicator_classList (snd (questionForm_submit event s)) =
             loadingIndicator_classList s
         \<and> answerSection_classList (snd (questionForm_submit event s)) =
             answerSection_classList s"
  using assms by (simp add: questionForm_submit_def alert_def)

text \<open>A question of two spaces, a tab and a line separator.\<close>

theorem questionForm_empty_question_witness:
  "trim (question_value (idle_page\<lparr>question_value := lit ''  '' @ [0x0009, 0x2028]\<rparr>)) = []
   \<and> snd (questionForm_submit \<lparr>defaultPrevented = False\<rparr>
             (idle_page\<lparr>question_value := lit ''  '' @ [0x0009, 0x2028]\<rparr>)) =
       idle_page\<lparr>question_value := lit ''  '' @ [0x0009, 0x2028],
                 alerts := [lit ''Bitte geben Sie eine Frage ein.'']\<rparr>
   \<and> fetched (snd (questionForm_submit \<lparr>defaultPrevented = False\<rparr>
             (idle_page\<lparr>question_value := lit ''  '' @ [0x0009, 0x2028]\<rparr>))) = []"
proof -
  have h: "trim (question_value (idle_page\<lparr>question_value := lit ''  '' @ [0x0009, 0x2028]\<rparr>)) = []"
    by (simp add: trim_def is_white_space_def lit_def)
  show ?thesis
    using h questionForm_empty_question [OF h, of "\<lparr>defaultPrevented = False\<rparr>"]
    by (simp add: idle_page_def)
qed

text \<open>
  C4. For a successful response whose \<open>sources\<close> field is absent or an empty
  list, the sources list holds the placeholder entry and nothing else, whatever
  it held before.
\<close>

theorem questionForm_no_sources:
  assumes "success data" and "sources data = None \<or> sources data = Some []"
  shows "sourcesList (questionForm_settle (Resolved data) s) = [placeholder_item]
         \<and> map textContent (sourcesList (questionForm_settle (Resolved data) s)) =
             [lit ''Keine spezifischen Quellen gefunden.'']"
  using assms
  by (auto simp: questionForm_settle_def questionForm_finally_def questionForm_then_def
      appendChild_def placeholder_item_def)

text \<open>An empty list over a previously rendered entry, and an absent field.\<close>

theorem questionForm_no_sources_witness:
  "success \<lparr>success = True, message = [], answer = lit ''X'', sources = Some []\<rparr>
   \<and> sources \<lparr>success = True, message = [], answer = lit ''X'', sources = Some []\<rparr> = Some []
   \<and> map textContent
         (sourcesList
            (questionForm_settle
               (Resolved \<lparr>success = True, message = [], answer = lit ''X'', sources = Some []\<rparr>)
               (idle_page\<lparr>sourcesList := [source_item \<lparr>filename = lit ''old.txt'', score = Finite 1\<rparr>]\<rparr>))) =
       [lit ''Keine spezifischen Quellen gefunden.'']
   \<and> map textContent
         (sourcesList
            (questionForm_settle
               (Resolved \<lparr>success = True, message = [], answer = lit ''X'', sources = None\<rparr>)
               idle_page)) =
       [lit ''Keine spezifischen Quellen gefunden.'']"
proof -
  have a: "success \<lparr>success = True, message = [], answer = lit ''X'', sources = Some []\<rparr>"
    and b: "sources \<lparr>success = True, message = [], answer = lit ''X'', sources = Some []\<rparr> = None
            \<or> sources \<lparr>success = True, message = [], answer = lit ''X'', sources = Some []\<rparr> = Some []"
    and c: "success \<lparr>success = True, message = [], answer = lit ''X'', sources = None\<rparr>"
    and d: "sources \<lparr>success = True, message = [], answer = lit ''X'', sources = None\<rparr> = None
            \<or> sources \<lparr>success = True, message = [], answer = lit ''X'', sources = None\<rparr> = Some []"
    by simp_all
  show ?thesis
    using questionForm_no_sources
            [OF a b, where s = "idle_page\<lparr>sourcesList :=
               [source_item \<lparr>filename = lit ''old.txt'', score = Finite 1\<rparr>]\<rparr>"]
          questionForm_no_sources [OF c d, where s = idle_page]
    by (simp add: placeholder_item_def)
qed

text \<open>
  C5. For a response with \<open>success\<close> false and message \<open>m\<close>, the cycle of a
  non-empty question ends with the alert \<^verbatim>\<open>Fehler: \<close> followed by \<open>m\<close>, the answer
  section as hidden as the submit handler left it, and the loading indicator
  hidden; the continuation itself adds the alert, keeps the classes of the
  answer section and hides the loading indicator from any state.
\<close>

theorem questionForm_application_failure:
  assumes "\<not> success data" and "trim (question_value s) \<noteq> []"
  shows "alerts (questionForm_settle (Resolved data) (snd (questionForm_submit event s))) =
           alerts s @ [lit ''Fehler: '' @ message data]
         \<and> answerSection_classList
               (questionForm_settle (Resolved data) (snd (questionForm_submit event s))) =
             answerSection_classList (snd (questionForm_submit event s))
         \<and> lit ''d-none'' \<in> set (answerSection_classList
               (questionForm_settle (Resolved data) (snd (questionForm_submit event s))))
         \<and> lit ''d-none'' \<in> set (loadingIndicator_classList
               (questionForm_settle (Resolved data) (snd (questionForm_submit event s))))
         \<and> alerts (questionForm_settle (Resolved data) s') = alerts s' @ [lit ''Fehler: '' @ message data]
         \<and> answerSection_classList (questionForm_settle (Resolved data) s') =
             answerSection_classList s'
         \<and> lit ''d-none'' \<in> set (loadingIndicator_classList (questionForm_settle (Resolved data) s'))"
  using assms
  by (simp add: questionForm_settle_def questionForm_finally_def questionForm_then_def
      questionForm_submit_def alert_def fetch_def classList_add_def Let_def)

text \<open>The example of the specification: the message \<^verbatim>\<open>no index\<close>.\<close>

theorem questionForm_application_failure_witness:
  "\<not> success \<lparr>success = False, message = lit ''no index'', answer = [], sources = None\<rparr>
   \<and> trim (question_value (idle_page\<lparr>question_value := lit '' What is indexed? ''\<rparr>)) \<noteq> []
   \<and> alerts (questionForm_settle
         (Resolved \<lparr>success = False, message = lit ''no index'', answer = [], sources = None\<rparr>)
         (snd (questionForm_submit \<lparr>defaultPrevented = False\<rparr>
                 (idle_page\<lparr>question_value := lit '' What is indexed? ''\<rparr>)))) =
       [lit ''Fehler: no index'']
   \<and> answerSection_classList (questionForm_settle
         (Resolved \<lparr>success = False, message = lit ''no index'', answer = [], sources = None\<rparr>)
         (snd (questionForm_submit \<lparr>defaultPrevented = False\<rparr>
                 (idle_page\<lparr>question_value := lit '' What is indexed? ''\<rparr>)))) =
       [lit ''d-none'']
   \<and> loadingIndicator_classList (questionForm_settle
         (Resolved \<lparr>success = False, message = lit ''no index'', answer = [], sources = None\<rparr>)
         (snd (questionForm_submit \<lparr>defaultPrevented = False\<rparr>
                 (idle_page\<lparr>question_value := lit '' What is indexed? ''\<rparr>)))) =
       [lit ''d-none'']
   \<and> fetched (snd (questionForm_submit \<lparr>defaultPrevented = False\<rparr>
                 (idle_page\<lparr>question_value := lit '' What is indexed? ''\<rparr>))) =
       [ask_request (lit ''What is indexed?'')]"
proof -
  have a: "\<not> success \<lparr>success = False, message = lit ''no index'', answer = [], sources = None\<rparr>"
    by simp
  have t: "trim (lit '' What is indexed? '') = lit ''What is indexed?''"
    by (simp add: trim_def is_white_space_def lit_def)
  have b: "trim (question_value (idle_page\<lparr>question_value := lit '' What is indexed? ''\<rparr>)) \<noteq> []"
    by (simp add: t) (simp add: lit_def)
  have c: "lit ''Fehler: '' @ lit ''no index'' = lit ''Fehler: no index''"
    by (simp add: lit_def)
  have pre: "snd (questionForm_submit \<lparr>defaultPrevented = False\<rparr>
                 (idle_page\<lparr>question_value := lit '' What is indexed? ''\<rparr>)) =
             idle_page\<lparr>question_value := lit '' What is indexed? '',
                       loadingIndicator_classList := [],
                       fetched := [ask_request (lit ''What is indexed?'')],
                       pending := [ask_request (lit ''What is indexed?'')]\<rparr>"
    using b
    by (simp add: questionForm_submit_def t fetch_def Let_def classList_add_def
        classList_remove_def idle_page_def)
  show ?thesis
    using questionForm_application_failure
            [OF a b, of "\<lparr>defaultPrevented = False\<rparr>"] a b c
    by (simp add: pre)
       (simp add: idle_page_def questionForm_settle_def questionForm_finally_def
        questionForm_then_def alert_def classList_add_def)
qed

text \<open>
  C10. Neither the submit handler nor the continuation of the request changes
  the value of the question field, whatever the outcome.
\<close>

theorem questionForm_keeps_question:
  "question_value (snd (questionForm_submit event s)) = question_value s
   \<and> question_value (questionForm_settle oc s) = question_value s
   \<and> question_value (questionForm_settle oc (snd (questionForm_submit event s))) = question_value s"
  by (cases oc)
     (simp_all add: questionForm_settle_def questionForm_finally_def questionForm_then_def
      questionForm_catch_def questionForm_submit_def alert_def console_error_def fetch_def
      appendChild_def forEach_source_eq Let_def split: option.splits)


end
